theory Spec2Isabelle
  imports Main
begin

section \<open>Python strings\<close>

text \<open>
  A Python \<open>str\<close> is modelled as a \<open>string\<close>: each \<open>char\<close> stands for one code
  point below 256. Strings with larger code points are outside the model.
\<close>

text \<open>\<open>s.startswith(p)\<close> for a single prefix \<open>p\<close>.\<close>

definition startswith :: "string \<Rightarrow> string \<Rightarrow> bool" where
  "startswith s p = (take (length p) s = p)"

text \<open>
  \<open>p in s\<close> for two strings: \<open>p\<close> occurs in \<open>s\<close> as a contiguous run of characters,
  compared character by character (so case-sensitively). The search tries every start
  position of \<open>s\<close> from the left, the end of \<open>s\<close> included.
\<close>

fun str_contains :: "string \<Rightarrow> string \<Rightarrow> bool" where
  "str_contains [] p = (p = [])"
| "str_contains (c # cs) p = (startswith (c # cs) p \<or> str_contains cs p)"

section \<open>Ad-blocking interceptor\<close>

text \<open>
  \<open>AdBlocker\<close> has one attribute, \<open>blocklist\<close>. \<open>AdBlocker_init\<close> is its constructor,
  with the nine patterns in the order of the source.
\<close>

record AdBlocker =
  blocklist :: "string list"

definition AdBlocker_init :: AdBlocker where
  "AdBlocker_init = \<lparr>blocklist =
     [''doubleclick.net'',
      ''googlesyndication.com'',
      ''adservice.google.'',
      ''ads.youtube.com'',
      ''ads.yahoo.'',
      ''taboola.com'',
      ''outbrain.com'',
      ''facebook.com/tr/'',
      ''pixel.'']\<rparr>"

text \<open>
  \<open>interceptRequest(info)\<close>: the argument is the text of \<open>info.requestUrl().toString()\<close>,
  the result is the Boolean handed to \<open>info.block\<close>. Python's \<open>any\<close> over the generator
  is the short-circuit disjunction over the list, in order.
\<close>

definition interceptRequest :: "AdBlocker \<Rightarrow> string \<Rightarrow> bool" where
  "interceptRequest self requestUrl =
     (if list_ex (\<lambda>p. str_contains requestUrl p) (blocklist self) then True else False)"

section \<open>Python values, errors, files\<close>

text \<open>
  The values \<open>json.load\<close> can return. A float is named by its \<open>repr\<close>; this program
  never inspects one. A \<open>dict\<close> is the list of its items in insertion order.
\<close>

datatype pyval =
    PNone
  | PBool bool
  | PInt int
  | PFloat string
  | PStr string
  | PList "pyval list"
  | PDict "(string \<times> pyval) list"

text \<open>The exceptions of the model; each is a subclass of Python's \<open>Exception\<close>.\<close>

datatype py_error =
    FileNotFoundError
  | OSError
  | JSONDecodeError
  | TypeError
  | AttributeError

text \<open>
  \<open>x in c\<close> for a string \<open>x\<close>: a list holds \<open>x\<close> when one of its items equals it (only a
  string equals a string), a dict when \<open>x\<close> is one of its keys, a string when \<open>x\<close> occurs
  in it; any other value is not iterable.
\<close>

definition py_in :: "string \<Rightarrow> pyval \<Rightarrow> py_error + bool" where
  "py_in x c =
     (case c of
        PList xs \<Rightarrow> Inr (PStr x \<in> set xs)
      | PDict kvs \<Rightarrow> Inr (x \<in> set (map fst kvs))
      | PStr s \<Rightarrow> Inr (str_contains s x)
      | _ \<Rightarrow> Inl TypeError)"

text \<open>\<open>c.append(x)\<close>: only a list has the method.\<close>

definition py_append :: "pyval \<Rightarrow> pyval \<Rightarrow> py_error + pyval" where
  "py_append c x =
     (case c of
        PList xs \<Rightarrow> Inr (PList (xs @ [x]))
      | _ \<Rightarrow> Inl AttributeError)"

text \<open>
  \<open>s.strip()\<close> removes leading and trailing whitespace. Below 256 the code points that
  Python counts as whitespace are 9 to 13, 28 to 32, 133 and 160.
\<close>

definition py_isspace :: "char \<Rightarrow> bool" where
  "py_isspace c =
     (let n = (of_char c :: nat)
      in (9 \<le> n \<and> n \<le> 13) \<or> (28 \<le> n \<and> n \<le> 32) \<or> n = 133 \<or> n = 160)"

definition py_strip :: "string \<Rightarrow> string" where
  "py_strip s = rev (dropWhile py_isspace (rev (dropWhile py_isspace s)))"

text \<open>
  A path is the list of its components, so \<open>os.path.join(a, x, y)\<close> is \<open>a @ [x, y]\<close> and
  \<open>os.path.dirname\<close> drops the last component. A file is absent, or unreadable (\<open>open\<close>
  or \<open>read\<close> raises: no permission, a directory in its place, bytes that do not decode;
  the model has the one error \<open>OSError\<close> for them), or a text. The file system of the model
  never refuses to create a directory or to write a file.
\<close>

type_synonym path = "string list"

datatype file_state = Absent | Unreadable | Text string

record filesystem =
  dirs :: "path set"
  files :: "path \<Rightarrow> file_state"

text \<open>\<open>os.makedirs(p, exist_ok=True)\<close>: \<open>p\<close> and every directory above it exist afterwards.\<close>

definition makedirs :: "path \<Rightarrow> filesystem \<Rightarrow> filesystem" where
  "makedirs p fs = fs\<lparr>dirs := dirs fs \<union> set (map (\<lambda>n. take n p) [1..<Suc (length p)])\<rparr>"

text \<open>
  What the program takes from its surroundings: the home directory
  (\<open>os.path.expanduser("~")\<close>) and the \<open>json\<close> module, as the text \<open>json.dump\<close> writes for a
  value and the value \<open>json.load\<close> returns for a text (\<open>None\<close> when it raises).
\<close>

record environment =
  home :: path
  json_dumps :: "pyval \<Rightarrow> string"
  json_loads :: "string \<Rightarrow> pyval option"

text \<open>\<open>json.load(open(p))\<close>.\<close>

definition json_load_open :: "environment \<Rightarrow> filesystem \<Rightarrow> path \<Rightarrow> py_error + pyval" where
  "json_load_open E fs p =
     (case files fs p of
        Absent \<Rightarrow> Inl FileNotFoundError
      | Unreadable \<Rightarrow> Inl OSError
      | Text t \<Rightarrow> (case json_loads E t of None \<Rightarrow> Inl JSONDecodeError | Some v \<Rightarrow> Inr v))"

text \<open>\<open>json.dump(v, open(p, "w"))\<close>: the file is replaced by the text of \<open>v\<close>.\<close>

definition json_dump_open :: "environment \<Rightarrow> pyval \<Rightarrow> path \<Rightarrow> filesystem \<Rightarrow> filesystem" where
  "json_dump_open E v p fs = fs\<lparr>files := (files fs)(p := Text (json_dumps E v))\<rparr>"

section \<open>The browser window\<close>

text \<open>
  The rendering engine and the widgets are outside the model. Of a
  \<open>QWebEngineProfile\<close> the model keeps what this program sets on it (\<open>None\<close>: not set); of a
  \<open>QWebEngineView\<close>, its profile and the URL it was created with; of the \<open>QTabWidget\<close>, its
  pages in tab order; of the URL bar, its text. The reference \<open>self.view\<close> to the active
  view is not tracked: what a handler reads from the active view is an argument of its
  model, what it hands to the view is the result. Signal connections, the status bar, the
  progress bar and the message boxes are left out.
\<close>

datatype cookies_policy = NoPersistentCookies | AllowPersistentCookies | ForcePersistentCookies

record profile =
  storage_name :: "string option"
  cache_path :: "path option"
  persistent_storage_path :: "path option"
  persistent_cookies_policy :: "cookies_policy option"
  http_user_agent :: "string option"
  url_request_interceptor :: "AdBlocker option"

record web_view =
  page_profile :: profile
  initial_url :: string

record browser =
  incognito :: bool
  tabs :: "web_view list"
  url_bar :: string
  downloads :: "string list"
  history :: "string list"
  bookmarks_path :: path
  bookmarks :: pyval

type_synonym world = "browser \<times> filesystem"

definition profile_dir :: string where
  "profile_dir = ''.pyside_browser_profile''"

definition user_agent :: string where
  "user_agent = ''Mozilla/5.0 (Windows NT 10.0; Win64; x64; rv:122.0) Gecko/20100101 Firefox/122.0''"

text \<open>\<open>QWebEngineProfile(parent)\<close> and \<open>QWebEngineProfile(name, parent)\<close>.\<close>

definition QWebEngineProfile :: "string option \<Rightarrow> profile" where
  "QWebEngineProfile name =
     \<lparr>storage_name = name, cache_path = None, persistent_storage_path = None,
      persistent_cookies_policy = None, http_user_agent = None,
      url_request_interceptor = None\<rparr>"

text \<open>\<open>Browser._create_profile\<close>.\<close>

definition create_profile :: "environment \<Rightarrow> browser \<Rightarrow> filesystem \<Rightarrow> profile \<times> filesystem" where
  "create_profile E self fs =
     (let (p, fs') =
        (if incognito self then
           (let p = QWebEngineProfile None;
                p = p\<lparr>persistent_cookies_policy := Some NoPersistentCookies\<rparr>
            in (p, fs))
         else
           (let root = home E @ [profile_dir];
                fs' = makedirs root fs;
                p = QWebEngineProfile (Some ''user-profile'');
                p = p\<lparr>cache_path := Some (root @ [''cache''])\<rparr>;
                p = p\<lparr>persistent_storage_path := Some (root @ [''storage''])\<rparr>;
                p = p\<lparr>persistent_cookies_policy := Some ForcePersistentCookies\<rparr>
            in (p, fs')))
      in (p\<lparr>http_user_agent := Some user_agent\<rparr>, fs'))"

text \<open>\<open>Browser._on_url_changed\<close>.\<close>

definition on_url_changed :: "string \<Rightarrow> browser \<Rightarrow> browser" where
  "on_url_changed url self =
     (let self = self\<lparr>url_bar := url\<rparr>
      in if \<not> incognito self then
           (if url \<notin> set (history self) then self\<lparr>history := history self @ [url]\<rparr>
            else self)
         else self)"

text \<open>\<open>Browser.new_tab\<close>; \<open>addTab\<close> puts the page after the existing ones.\<close>

definition default_url :: string where
  "default_url = ''https://www.google.com''"

definition new_tab :: "environment \<Rightarrow> string \<Rightarrow> world \<Rightarrow> world" where
  "new_tab E url w =
     (let (self, fs) = w;
          (profile, fs') = create_profile E self fs;
          blocker = AdBlocker_init;
          profile = profile\<lparr>url_request_interceptor := Some blocker\<rparr>;
          view = \<lparr>page_profile = profile, initial_url = url\<rparr>
      in (self\<lparr>tabs := tabs self @ [view]\<rparr>, fs'))"

text \<open>
  \<open>Browser.close_tab\<close>. \<open>removeTab\<close> with an index that names no tab removes nothing;
  \<open>deleteLater\<close> ends the life of the page widget, which the model does not track.
\<close>

definition removeTab :: "int \<Rightarrow> 'a list \<Rightarrow> 'a list" where
  "removeTab index ts =
     (if 0 \<le> index \<and> nat index < length ts
      then take (nat index) ts @ drop (Suc (nat index)) ts
      else ts)"

definition close_tab :: "int \<Rightarrow> browser \<Rightarrow> browser" where
  "close_tab index self =
     (if length (tabs self) > 1 then self\<lparr>tabs := removeTab index (tabs self)\<rparr>
      else self)"

text \<open>
  \<open>Browser.go_to_url\<close>: the result is the text handed to \<open>self.view.setUrl(QUrl(...))\<close>.
\<close>

definition go_to_url :: "browser \<Rightarrow> string" where
  "go_to_url self =
     (let url = py_strip (url_bar self);
          url = (if \<not> (startswith url ''http://'' \<or> startswith url ''https://'')
                 then ''https://'' @ url else url)
      in url)"

text \<open>
  \<open>Browser.add_bookmark\<close>; \<open>current\<close> is the text of \<open>self.view.url().toString()\<close>.
\<close>

definition add_bookmark :: "environment \<Rightarrow> string \<Rightarrow> world \<Rightarrow> py_error + world" where
  "add_bookmark E current w =
     (let (self, fs) = w
      in if current = [] then Inr w
         else
           (case py_in current (bookmarks self) of
              Inl e \<Rightarrow> Inl e
            | Inr True \<Rightarrow> Inr w
            | Inr False \<Rightarrow>
                (case py_append (bookmarks self) (PStr current) of
                   Inl e \<Rightarrow> Inl e
                 | Inr bm \<Rightarrow>
                     Inr (self\<lparr>bookmarks := bm\<rparr>,
                          json_dump_open E bm (bookmarks_path self) fs))))"

text \<open>
  \<open>Browser.__init__\<close>: the attributes in the order of the source, the bookmarks read
  under \<open>try\<close> with \<open>except Exception\<close> giving the empty list, then the first tab.
\<close>

definition Browser_init :: "environment \<Rightarrow> bool \<Rightarrow> filesystem \<Rightarrow> world" where
  "Browser_init E incog fs =
     (let path = home E @ [profile_dir, ''bookmarks.json''];
          fs = makedirs (butlast path) fs;
          bm = (case json_load_open E fs path of Inl e \<Rightarrow> PList [] | Inr v \<Rightarrow> v);
          self = \<lparr>incognito = incog, tabs = [], url_bar = [], downloads = [],
                  history = [], bookmarks_path = path, bookmarks = bm\<rparr>
      in new_tab E default_url (self, fs))"

text \<open>
  The actions of a window, and a run of them. An exception that leaves a handler is
  reported by the toolkit and the window goes on in the state the handler left.
\<close>

datatype event =
    NewTab
  | CloseTab int
  | UrlChanged string
  | GoToUrl
  | AddBookmark string

fun handle :: "environment \<Rightarrow> world \<Rightarrow> event \<Rightarrow> world" where
  "handle E w NewTab = new_tab E default_url w"
| "handle E w (CloseTab index) = (close_tab index (fst w), snd w)"
| "handle E w (UrlChanged url) = (on_url_changed url (fst w), snd w)"
| "handle E w GoToUrl = w"
| "handle E w (AddBookmark current) =
     (case add_bookmark E current w of Inl e \<Rightarrow> w | Inr w' \<Rightarrow> w')"

definition run :: "environment \<Rightarrow> event list \<Rightarrow> world \<Rightarrow> world" where
  "run E es w = foldl (handle E) w es"


section \<open>A concrete environment for closed examples\<close>

text \<open>
  The closed examples below need a home directory, a \<open>json\<close> module and a file system
  to run in. This small module writes a list of strings of printable ASCII characters
  the way \<open>json.dump\<close> does (items in double quotes, separated by a comma and a space,
  within brackets; the double quote and the backslash escaped by a backslash) and reads
  such a text back; it refuses every other text.
\<close>

fun escape :: "string \<Rightarrow> string" where
  "escape [] = []"
| "escape (c # cs) =
     (if c = CHR 0x22 \<or> c = CHR 0x5C then CHR 0x5C # c # escape cs else c # escape cs)"

definition quote :: "string \<Rightarrow> string" where
  "quote s = CHR 0x22 # escape s @ [CHR 0x22]"

definition item_text :: "pyval \<Rightarrow> string" where
  "item_text x = (case x of PStr s \<Rightarrow> quote s | _ \<Rightarrow> ''null'')"

fun items_text :: "pyval list \<Rightarrow> string" where
  "items_text [] = []"
| "items_text [x] = item_text x"
| "items_text (x # y # zs) = item_text x @ '', '' @ items_text (y # zs)"

definition example_dumps :: "pyval \<Rightarrow> string" where
  "example_dumps v =
     (case v of PList xs \<Rightarrow> ''['' @ items_text xs @ '']'' | _ \<Rightarrow> item_text v)"

fun read_string :: "string \<Rightarrow> string \<Rightarrow> (string \<times> string) option" where
  "read_string acc [] = None"
| "read_string acc [c] = (if c = CHR 0x22 then Some (rev acc, []) else None)"
| "read_string acc (c # d # ds) =
     (if c = CHR 0x22 then Some (rev acc, d # ds)
      else if c = CHR 0x5C then read_string (d # acc) ds
      else read_string (c # acc) (d # ds))"

fun read_items :: "nat \<Rightarrow> pyval list \<Rightarrow> string \<Rightarrow> pyval list option" where
  "read_items 0 acc s = None"
| "read_items (Suc n) acc [] = None"
| "read_items (Suc n) acc (c # cs) =
     (if c = CHR 0x22 then
        (case read_string [] cs of
           None \<Rightarrow> None
         | Some (x, rest) \<Rightarrow>
             (if rest = '']'' then Some (rev (PStr x # acc))
              else if startswith rest '', '' then read_items n (PStr x # acc) (drop 2 rest)
              else None))
      else None)"

definition example_loads :: "string \<Rightarrow> pyval option" where
  "example_loads s =
     (if s = ''[]'' then Some (PList [])
      else if startswith s ''['' then map_option PList (read_items (length s) [] (drop 1 s))
      else None)"

definition example_env :: environment where
  "example_env =
     \<lparr>home = [''home'', ''ada''], json_dumps = example_dumps, json_loads = example_loads\<rparr>"

definition example_fs :: filesystem where
  "example_fs = \<lparr>dirs = {}, files = (\<lambda>p. Absent)\<rparr>"



section \<open>Properties of the interceptor\<close>

lemma startswith_iff_append: "startswith s p \<longleftrightarrow> (\<exists>b. s = p @ b)"
proof
  assume "startswith s p"
  then have "s = p @ drop (length p) s"
    unfolding startswith_def by (metis append_take_drop_id)
  then show "\<exists>b. s = p @ b" ..
next
  assume "\<exists>b. s = p @ b"
  then show "startswith s p"
    unfolding startswith_def by auto
qed

lemma str_contains_iff_infix: "str_contains s p \<longleftrightarrow> (\<exists>a b. s = a @ p @ b)"
proof (induction s)
  case Nil
  show ?case by auto
next
  case (Cons c cs)
  show ?case
  proof
    assume "str_contains (c # cs) p"
    then consider "startswith (c # cs) p" | "str_contains cs p" by auto
    then show "\<exists>a b. c # cs = a @ p @ b"
    proof cases
      case 1
      then obtain b where "c # cs = p @ b"
        using startswith_iff_append by blast
      then have "c # cs = [] @ p @ b" by simp
      then show ?thesis by blast
    next
      case 2
      then obtain a b where "cs = a @ p @ b"
        using Cons.IH by blast
      then have "c # cs = (c # a) @ p @ b" by simp
      then show ?thesis by blast
    qed
  next
    assume "\<exists>a b. c # cs = a @ p @ b"
    then obtain a b where ab: "c # cs = a @ p @ b" by blast
    show "str_contains (c # cs) p"
    proof (cases a)
      case Nil
      with ab have "startswith (c # cs) p"
        using startswith_iff_append by auto
      then show ?thesis by simp
    next
      case (Cons x a')
      with ab have "cs = a' @ p @ b" by simp
      then have "str_contains cs p"
        using Cons.IH by blast
      then show ?thesis by simp
    qed
  qed
qed

text \<open>
  C1. For every URL \<open>u\<close> and every ordered sequence of rules \<open>R\<close>, the interceptor blocks
  \<open>u\<close> exactly when some rule of \<open>R\<close> occurs in \<open>u\<close> as a contiguous, case-sensitive
  substring; with no rules, every URL is allowed.
\<close>

theorem interceptRequest_blocks_iff_substring:
  "(interceptRequest \<lparr>blocklist = R\<rparr> u \<longleftrightarrow> (\<exists>r \<in> set R. \<exists>a b. u = a @ r @ b))
   \<and> interceptRequest \<lparr>blocklist = []\<rparr> u = False"
  by (simp add: interceptRequest_def list_ex_iff str_contains_iff_infix)

theorem interceptRequest_blocks_iff_substring_witness:
  "interceptRequest \<lparr>blocklist = [''taboola.com'', ''ads.yahoo.'']\<rparr> ''http://ads.yahoo.com/a''
   \<and> (\<exists>r \<in> set [''taboola.com'', ''ads.yahoo.'']. \<exists>a b. ''http://ads.yahoo.com/a'' = a @ r @ b)
   \<and> interceptRequest \<lparr>blocklist = []\<rparr> ''http://ads.yahoo.com/a'' = False"
proof -
  have blocked: "interceptRequest \<lparr>blocklist = [''taboola.com'', ''ads.yahoo.'']\<rparr> ''http://ads.yahoo.com/a''"
    by (simp add: interceptRequest_def startswith_def)
  note spec = interceptRequest_blocks_iff_substring
    [of "[''taboola.com'', ''ads.yahoo.'']" "''http://ads.yahoo.com/a''"]
  from spec blocked show ?thesis by blast
qed

text \<open>
  C2, as the code has it. With the rule set \<open>["doubleclick.net", "pixel."]\<close> the interceptor
  blocks \<open>https://ads.doubleclick.net/x\<close>, and it allows both
  \<open>https://example.com/pixelated.png\<close> (the text \<open>pixel.\<close>, with its dot, does not occur in
  it) and \<open>https://example.com/\<close>.
\<close>

theorem interceptRequest_scenario:
  "interceptRequest \<lparr>blocklist = [''doubleclick.net'', ''pixel.'']\<rparr> ''https://ads.doubleclick.net/x'' = True
   \<and> interceptRequest \<lparr>blocklist = [''doubleclick.net'', ''pixel.'']\<rparr> ''https://example.com/pixelated.png'' = False
   \<and> interceptRequest \<lparr>blocklist = [''doubleclick.net'', ''pixel.'']\<rparr> ''https://example.com/'' = False"
  by (simp add: interceptRequest_def startswith_def)

text \<open>
  The scenario as the specification words it, with \<open>https://example.com/pixelated.png\<close>
  blocked, does not hold of the interceptor.
\<close>

theorem interceptRequest_scenario_counterexample:
  "\<not> (interceptRequest \<lparr>blocklist = [''doubleclick.net'', ''pixel.'']\<rparr> ''https://ads.doubleclick.net/x'' = True
      \<and> interceptRequest \<lparr>blocklist = [''doubleclick.net'', ''pixel.'']\<rparr> ''https://example.com/pixelated.png'' = True
      \<and> interceptRequest \<lparr>blocklist = [''doubleclick.net'', ''pixel.'']\<rparr> ''https://example.com/'' = False)"
  by (simp add: interceptRequest_def startswith_def)
section \<open>Facts about the handlers\<close>

lemma history_on_url_changed:
  "history (on_url_changed url b) =
     (if incognito b \<or> url \<in> set (history b) then history b else history b @ [url])"
  by (simp add: on_url_changed_def Let_def)

lemma incognito_on_url_changed: "incognito (on_url_changed url b) = incognito b"
  by (simp add: on_url_changed_def Let_def)

lemma tabs_on_url_changed: "tabs (on_url_changed url b) = tabs b"
  by (simp add: on_url_changed_def Let_def)

lemma bookmarks_on_url_changed: "bookmarks (on_url_changed url b) = bookmarks b"
  by (simp add: on_url_changed_def Let_def)



lemma new_tab_fst:
  "fst (new_tab E url (b, fs)) =
     b\<lparr>tabs := tabs b @
       [\<lparr>page_profile = (fst (create_profile E b fs))\<lparr>url_request_interceptor := Some AdBlocker_init\<rparr>,
         initial_url = url\<rparr>]\<rparr>"
  by (simp add: new_tab_def Let_def split: prod.splits)


lemma close_tab_fields:
  "history (close_tab i b) = history b" "incognito (close_tab i b) = incognito b"
  "bookmarks (close_tab i b) = bookmarks b" "bookmarks_path (close_tab i b) = bookmarks_path b"
  by (simp_all add: close_tab_def)

lemma close_tab_length: "1 \<le> length (tabs b) \<Longrightarrow> 1 \<le> length (tabs (close_tab i b))"
  by (auto simp: close_tab_def removeTab_def)

lemma add_bookmark_fields:
  assumes "add_bookmark E u (b, fs) = Inr (b', fs')"
  shows "tabs b' = tabs b" "history b' = history b" "incognito b' = incognito b"
    "bookmarks_path b' = bookmarks_path b" "dirs fs' = dirs fs"
  using assms
  by (auto simp: add_bookmark_def json_dump_open_def split: if_splits sum.splits bool.splits)

lemma run_Nil: "run E [] w = w"
  by (simp add: run_def)

lemma run_Cons: "run E (e # es) w = run E es (handle E w e)"
  by (simp add: run_def)

lemma run_induct:
  assumes "P w" and "\<And>w e. e \<in> set es \<Longrightarrow> P w \<Longrightarrow> P (handle E w e)"
  shows "P (run E es w)"
  using assms
proof (induction es arbitrary: w)
  case Nil
  then show ?case by (simp add: run_Nil)
next
  case (Cons e es)
  have "P (handle E w e)" using Cons.prems by simp
  then show ?case
    unfolding run_Cons using Cons.prems(2) by (intro Cons.IH) simp_all
qed

lemma handle_history:
  "history (fst (handle E w e)) =
     (case e of
        UrlChanged url \<Rightarrow>
          (if incognito (fst w) \<or> url \<in> set (history (fst w)) then history (fst w)
           else history (fst w) @ [url])
      | _ \<Rightarrow> history (fst w))"
proof (cases w)
  case (Pair b fs)
  show ?thesis
  proof (cases e)
    case (AddBookmark u)
    show ?thesis
    proof (cases "add_bookmark E u (b, fs)")
      case (Inl err)
      then show ?thesis using Pair AddBookmark by simp
    next
      case (Inr w')
      then show ?thesis
        using Pair AddBookmark add_bookmark_fields(2)[of E u b fs "fst w'" "snd w'"] by simp
    qed
  qed (simp_all add: Pair new_tab_fst history_on_url_changed close_tab_fields)
qed

lemma handle_incognito: "incognito (fst (handle E w e)) = incognito (fst w)"
proof (cases w)
  case (Pair b fs)
  show ?thesis
  proof (cases e)
    case (AddBookmark u)
    show ?thesis
    proof (cases "add_bookmark E u (b, fs)")
      case (Inl err)
      then show ?thesis using Pair AddBookmark by simp
    next
      case (Inr w')
      then show ?thesis
        using Pair AddBookmark add_bookmark_fields(3)[of E u b fs "fst w'" "snd w'"] by simp
    qed
  qed (simp_all add: Pair new_tab_fst incognito_on_url_changed close_tab_fields)
qed

lemma handle_tabs_nonempty:
  assumes "1 \<le> length (tabs (fst w))"
  shows "1 \<le> length (tabs (fst (handle E w e)))"
proof (cases w)
  case (Pair b fs)
  show ?thesis
  proof (cases e)
    case (AddBookmark u)
    show ?thesis
    proof (cases "add_bookmark E u (b, fs)")
      case (Inl err)
      then show ?thesis using Pair AddBookmark assms by simp
    next
      case (Inr w')
      then show ?thesis
        using Pair AddBookmark assms add_bookmark_fields(1)[of E u b fs "fst w'" "snd w'"] by simp
    qed
  next
    case (CloseTab i)
    then show ?thesis using Pair assms close_tab_length[of b i] by simp
  qed (use assms in \<open>simp_all add: Pair new_tab_fst tabs_on_url_changed\<close>)
qed

lemma Browser_init_fst:
  "fst (Browser_init E incog fs) =
     \<lparr>incognito = incog,
      tabs = [\<lparr>page_profile =
                 (fst (create_profile E
                    \<lparr>incognito = incog, tabs = [], url_bar = [], downloads = [], history = [],
                     bookmarks_path = home E @ [profile_dir, ''bookmarks.json''],
                     bookmarks = (case json_load_open E (makedirs (home E @ [profile_dir]) fs)
                                        (home E @ [profile_dir, ''bookmarks.json'']) of
                                    Inl e \<Rightarrow> PList [] | Inr v \<Rightarrow> v)\<rparr>
                    (makedirs (home E @ [profile_dir]) fs)))
                 \<lparr>url_request_interceptor := Some AdBlocker_init\<rparr>,
               initial_url = default_url\<rparr>],
      url_bar = [], downloads = [], history = [],
      bookmarks_path = home E @ [profile_dir, ''bookmarks.json''],
      bookmarks = (case json_load_open E (makedirs (home E @ [profile_dir]) fs)
                          (home E @ [profile_dir, ''bookmarks.json'']) of
                      Inl e \<Rightarrow> PList [] | Inr v \<Rightarrow> v)\<rparr>"
  by (simp add: Browser_init_def Let_def new_tab_fst butlast_append)

lemma run_history_distinct:
  "distinct (history (fst w)) \<Longrightarrow> distinct (history (fst (run E es w)))"
  by (rule run_induct) (auto simp: handle_history split: event.splits)

lemma run_incognito: "incognito (fst (run E es w)) = incognito (fst w)"
  by (rule run_induct[where P = "\<lambda>w'. incognito (fst w') = incognito (fst w)"])
     (simp_all add: handle_incognito)

lemma run_history_incognito:
  "incognito (fst w) \<Longrightarrow> history (fst (run E es w)) = history (fst w)"
  by (rule run_induct[where P = "\<lambda>w'. incognito (fst w') \<and> history (fst w') = history (fst w)", THEN conjunct2])
     (auto simp: handle_history handle_incognito split: event.splits)

lemma run_tabs_nonempty:
  "1 \<le> length (tabs (fst w)) \<Longrightarrow> 1 \<le> length (tabs (fst (run E es w)))"
  by (rule run_induct, assumption, rule handle_tabs_nonempty)
















subsection \<open>Stripping\<close>

lemma rev_dropWhile_takeWhile:
  "xs = rev (dropWhile P (rev xs)) @ rev (takeWhile P (rev xs))"
proof -
  have "rev (rev (dropWhile P (rev xs)) @ rev (takeWhile P (rev xs))) = rev xs"
    by simp
  then show ?thesis
    by (simp only: rev_is_rev_conv)
qed

lemma py_strip_decomposition:
  "\<exists>l r. s = l @ py_strip s @ r \<and> list_all py_isspace l \<and> list_all py_isspace r"
proof -
  define m where "m = dropWhile py_isspace s"
  define r where "r = rev (takeWhile py_isspace (rev m))"
  have s: "s = takeWhile py_isspace s @ m"
    by (simp add: m_def)
  have m: "m = py_strip s @ r"
    unfolding py_strip_def r_def m_def by (rule rev_dropWhile_takeWhile)
  have l: "list_all py_isspace (takeWhile py_isspace s)"
    by (auto simp: list_all_iff dest: set_takeWhileD)
  have r: "list_all py_isspace r"
    by (auto simp: r_def list_all_iff dest: set_takeWhileD)
  from s m have "s = takeWhile py_isspace s @ py_strip s @ r"
    by simp
  with l r show ?thesis by blast
qed

lemma py_strip_ends:
  assumes "py_strip s \<noteq> []"
  shows "\<not> py_isspace (hd (py_strip s))" "\<not> py_isspace (last (py_strip s))"
proof -
  define m where "m = dropWhile py_isspace s"
  define d where "d = dropWhile py_isspace (rev m)"
  define r where "r = rev (takeWhile py_isspace (rev m))"
  have t: "py_strip s = rev d"
    by (simp add: py_strip_def m_def d_def)
  with assms have d: "d \<noteq> []" by simp
  then have "\<not> py_isspace (hd d)"
    unfolding d_def by (rule hd_dropWhile)
  then show "\<not> py_isspace (last (py_strip s))"
    using d by (simp add: t last_rev)
  have m: "m = rev d @ r"
    unfolding d_def r_def by (rule rev_dropWhile_takeWhile)
  from d have "hd (rev d @ r) = hd (rev d)" "rev d @ r \<noteq> []"
    by simp_all
  with m have "hd m = hd (rev d)" "m \<noteq> []"
    by simp_all
  moreover from \<open>m \<noteq> []\<close> have "\<not> py_isspace (hd m)"
    unfolding m_def by (rule hd_dropWhile)
  ultimately show "\<not> py_isspace (hd (py_strip s))"
    by (simp add: t)
qed

subsection \<open>Unfolding the model on concrete inputs\<close>



section \<open>The \<open>json\<close> module of the examples\<close>

text \<open>
  The module of the examples reads every list of strings back from the text it writes
  for it: what the properties of saving and loading below assume of the \<open>json\<close> module
  holds of this one for every list of strings and every URL.
\<close>

lemma read_string_escape:
  "read_string acc (escape s @ CHR 0x22 # rest) = Some (rev acc @ s, rest)"
proof (induction s arbitrary: acc)
  case Nil
  show ?case by (cases rest) simp_all
next
  case (Cons c cs)
  show ?case
  proof (cases "c = CHR 0x22 \<or> c = CHR 0x5C")
    case True
    then have "read_string acc (escape (c # cs) @ CHR 0x22 # rest)
        = read_string (c # acc) (escape cs @ CHR 0x22 # rest)"
      by simp
    then show ?thesis by (simp add: Cons.IH)
  next
    case False
    obtain d ds where tail: "escape cs @ CHR 0x22 # rest = d # ds"
      by (cases "escape cs") simp_all
    from False have "read_string acc (escape (c # cs) @ CHR 0x22 # rest)
        = read_string (c # acc) (escape cs @ CHR 0x22 # rest)"
      by (simp add: tail)
    then show ?thesis by (simp add: Cons.IH)
  qed
qed

lemma read_items_items_text:
  "xs \<noteq> [] \<Longrightarrow> length xs \<le> n \<Longrightarrow>
     read_items n acc (items_text (map PStr xs) @ '']'') = Some (rev acc @ map PStr xs)"
proof (induction xs arbitrary: n acc)
  case Nil
  then show ?case by simp
next
  case (Cons x xs)
  note IH = Cons.IH
  from Cons.prems obtain m where n: "n = Suc m" "length xs \<le> m"
    by (cases n) simp_all
  show ?case
  proof (cases xs)
    case Nil
    have "read_items (Suc m) acc (CHR 0x22 # escape x @ CHR 0x22 # '']'')
        = Some (rev acc @ [PStr x])"
      by (simp add: read_string_escape)
    then show ?thesis
      by (simp add: Nil n item_text_def quote_def)
  next
    case (Cons y ys)
    have "read_items (Suc m) acc
            (CHR 0x22 # escape x @ CHR 0x22 # ('', '' @ items_text (map PStr (y # ys)) @ '']''))
        = read_items m (PStr x # acc) (items_text (map PStr (y # ys)) @ '']'')"
      by (simp add: read_string_escape startswith_def)
    also have "\<dots> = Some (rev (PStr x # acc) @ map PStr (y # ys))"
      using IH[of m "PStr x # acc"] n Cons by simp
    finally show ?thesis
      by (simp add: Cons n item_text_def quote_def)
  qed
qed

lemma length_items_text: "length xs \<le> length (items_text (map PStr xs))"
proof (induction xs rule: induct_list012)
  case 1
  show ?case by simp
next
  case (2 x)
  show ?case by (simp add: item_text_def quote_def)
next
  case (3 x y zs)
  then show ?case by (simp add: item_text_def quote_def)
qed

lemma example_json_round_trip:
  "example_loads (example_dumps (PList (map PStr xs))) = Some (PList (map PStr xs))"
proof (cases xs)
  case Nil
  then show ?thesis by (simp add: example_loads_def example_dumps_def)
next
  case (Cons x ys)
  let ?t = "items_text (map PStr xs)"
  have t: "?t \<noteq> []"
    using length_items_text[of xs] Cons by auto
  then have no: "CHR ''['' # ?t @ '']'' \<noteq> ''[]''"
    by (cases ?t) simp_all
  have "read_items (length (CHR ''['' # ?t @ '']'')) [] (?t @ '']'') = Some (rev [] @ map PStr xs)"
    using length_items_text[of xs] Cons by (intro read_items_items_text) simp_all
  with no show ?thesis
    by (simp add: example_loads_def example_dumps_def startswith_def)
qed

lemma example_env_round_trip:
  "json_loads example_env (json_dumps example_env (PList (map PStr bs @ [PStr u])))
     = Some (PList (map PStr bs @ [PStr u]))"
  using example_json_round_trip[of "bs @ [u]"] by (simp add: example_env_def)

section \<open>History\<close>

text \<open>
  C3. No run of actions of a window puts a URL into its history twice: a history without
  duplicates stays so, and the history of a new window is empty. In an incognito window
  the history is left as it is by every URL-changed event, and by every run of actions;
  from its creation on it is empty.
\<close>

theorem history_no_duplicates_incognito_unchanged:
  "(distinct (history (fst w)) \<longrightarrow> distinct (history (fst (run E es w))))
   \<and> (incognito (fst w) \<longrightarrow> history (fst (run E es w)) = history (fst w))
   \<and> (incognito b \<longrightarrow> history (on_url_changed url b) = history b)
   \<and> history (fst (Browser_init E incog fs)) = []
   \<and> distinct (history (fst (run E es (Browser_init E incog fs))))
   \<and> history (fst (run E es (Browser_init E True fs))) = []"
proof -
  have init: "history (fst (Browser_init E i fs)) = []" "incognito (fst (Browser_init E i fs)) = i" for i
    by (simp_all add: Browser_init_fst)
  have "distinct (history (fst (run E es (Browser_init E incog fs))))"
    by (rule run_history_distinct) (simp add: init)
  moreover have "history (fst (run E es (Browser_init E True fs))) = []"
    using run_history_incognito[of "Browser_init E True fs" E es] by (simp add: init)
  ultimately show ?thesis
    using run_history_distinct run_history_incognito init(1)
    by (simp add: history_on_url_changed)
qed

theorem history_no_duplicates_incognito_unchanged_witness:
  "distinct (history (fst (Browser_init example_env False example_fs)))
   \<and> history (fst (run example_env
         [UrlChanged ''https://a.com/'', NewTab, UrlChanged ''https://b.org/'', UrlChanged ''https://a.com/'']
         (Browser_init example_env False example_fs))) = [''https://a.com/'', ''https://b.org/'']
   \<and> incognito (fst (Browser_init example_env True example_fs))
   \<and> history (fst (run example_env
         [UrlChanged ''https://a.com/'', NewTab, UrlChanged ''https://b.org/'', UrlChanged ''https://a.com/'']
         (Browser_init example_env True example_fs))) = []"
  using history_no_duplicates_incognito_unchanged
    [of "Browser_init example_env False example_fs" example_env
        "[UrlChanged ''https://a.com/'', NewTab, UrlChanged ''https://b.org/'', UrlChanged ''https://a.com/'']"
        "fst (Browser_init example_env True example_fs)" "''https://a.com/''" True example_fs]
  by (simp add: Browser_init_def new_tab_def create_profile_def run_def on_url_changed_def
      Let_def json_load_open_def makedirs_def example_fs_def example_env_def)

section \<open>Tabs\<close>

text \<open>
  C7. A new window has one tab, and after every run of actions (new tab, close tab and
  the others) a window still has at least one. Closing a tab when it is the only one
  changes nothing in the window, whatever the index.
\<close>

theorem tab_count_at_least_one:
  "length (tabs (fst (Browser_init E incog fs))) = 1
   \<and> 1 \<le> length (tabs (fst (run E es (Browser_init E incog fs))))
   \<and> (1 \<le> length (tabs (fst w)) \<longrightarrow> 1 \<le> length (tabs (fst (run E es w))))
   \<and> (length (tabs b) = 1 \<longrightarrow> close_tab index b = b)"
proof -
  have init: "length (tabs (fst (Browser_init E incog fs))) = 1"
    by (simp add: Browser_init_fst)
  then have "1 \<le> length (tabs (fst (run E es (Browser_init E incog fs))))"
    by (intro run_tabs_nonempty) simp
  with init show ?thesis
    using run_tabs_nonempty by (simp add: close_tab_def)
qed

theorem tab_count_at_least_one_witness:
  "length (tabs (fst (Browser_init example_env False example_fs))) = 1
   \<and> length (tabs (fst (run example_env [NewTab, CloseTab 0, CloseTab 0, CloseTab 5]
         (Browser_init example_env False example_fs)))) = 1
   \<and> close_tab 0 (fst (Browser_init example_env False example_fs))
       = fst (Browser_init example_env False example_fs)"
  using tab_count_at_least_one
    [of example_env False example_fs "[NewTab, CloseTab 0, CloseTab 0, CloseTab 5]"
        "Browser_init example_env False example_fs"
        "fst (Browser_init example_env False example_fs)" 0]
  by (simp add: Browser_init_def new_tab_def create_profile_def run_def close_tab_def removeTab_def
      Let_def json_load_open_def makedirs_def example_fs_def example_env_def)

section \<open>Go to URL\<close>

text \<open>
  C8, as the code has it. For every text \<open>s\<close> of the URL bar, go-to-URL first strips the
  whitespace at both ends of \<open>s\<close>: \<open>s\<close> is \<open>l @ t @ r\<close> with \<open>l\<close> and \<open>r\<close> whitespace only and
  \<open>t\<close> neither beginning nor ending with whitespace. It loads \<open>t\<close> unchanged when \<open>t\<close>
  begins with \<open>http://\<close> or \<open>https://\<close> (in lower case), and \<open>https://\<close> followed by \<open>t\<close>
  otherwise.
\<close>

theorem go_to_url_strips_then_prefixes:
  "\<exists>l t r. url_bar b = l @ t @ r
      \<and> list_all py_isspace l \<and> list_all py_isspace r
      \<and> (t = [] \<or> (\<not> py_isspace (hd t) \<and> \<not> py_isspace (last t)))
      \<and> go_to_url b =
          (if (\<exists>x. t = ''http://'' @ x) \<or> (\<exists>x. t = ''https://'' @ x) then t
           else ''https://'' @ t)"
proof -
  obtain l r where lr: "url_bar b = l @ py_strip (url_bar b) @ r"
    "list_all py_isspace l" "list_all py_isspace r"
    using py_strip_decomposition by blast
  have ends: "py_strip (url_bar b) = []
     \<or> (\<not> py_isspace (hd (py_strip (url_bar b))) \<and> \<not> py_isspace (last (py_strip (url_bar b))))"
    using py_strip_ends by blast
  have go: "go_to_url b =
      (if (\<exists>x. py_strip (url_bar b) = ''http://'' @ x) \<or> (\<exists>x. py_strip (url_bar b) = ''https://'' @ x)
       then py_strip (url_bar b) else ''https://'' @ py_strip (url_bar b))"
    unfolding go_to_url_def Let_def startswith_iff_append by simp
  from lr ends go show ?thesis by blast
qed

theorem go_to_url_strips_then_prefixes_witness:
  "go_to_url ((fst (Browser_init example_env False example_fs))\<lparr>url_bar := ''  example.com/x ''\<rparr>)
     = ''https://example.com/x''
   \<and> (\<exists>l t r. ''  example.com/x '' = l @ t @ r
        \<and> list_all py_isspace l \<and> list_all py_isspace r
        \<and> (t = [] \<or> (\<not> py_isspace (hd t) \<and> \<not> py_isspace (last t)))
        \<and> ''https://example.com/x'' =
            (if (\<exists>x. t = ''http://'' @ x) \<or> (\<exists>x. t = ''https://'' @ x) then t
             else ''https://'' @ t))"
proof -
  let ?b = "(fst (Browser_init example_env False example_fs))\<lparr>url_bar := ''  example.com/x ''\<rparr>"
  have v: "go_to_url ?b = ''https://example.com/x''"
    by (simp add: go_to_url_def py_strip_def py_isspace_def startswith_def Let_def)
  from go_to_url_strips_then_prefixes [of ?b] show ?thesis
    unfolding v by simp
qed

text \<open>
  The claim as the specification words it fails on surrounding whitespace: an input that
  begins with \<open>http://\<close> and ends with a space is not loaded unchanged, and an input that
  begins with a space and has no scheme does not get \<open>https://\<close> put in front of it as it
  stands. A scheme other than \<open>http\<close> and \<open>https\<close> does not count as a scheme prefix.
\<close>

theorem go_to_url_unchanged_counterexample:
  "startswith ''http://a.com '' ''http://''
   \<and> go_to_url ((fst (Browser_init example_env False example_fs))\<lparr>url_bar := ''http://a.com ''\<rparr>)
       = ''http://a.com''
   \<and> go_to_url ((fst (Browser_init example_env False example_fs))\<lparr>url_bar := ''http://a.com ''\<rparr>)
       \<noteq> ''http://a.com ''
   \<and> \<not> startswith '' a.com'' ''http://'' \<and> \<not> startswith '' a.com'' ''https://''
   \<and> go_to_url ((fst (Browser_init example_env False example_fs))\<lparr>url_bar := '' a.com''\<rparr>)
       = ''https://a.com''
   \<and> go_to_url ((fst (Browser_init example_env False example_fs))\<lparr>url_bar := '' a.com''\<rparr>)
       \<noteq> ''https://'' @ '' a.com''
   \<and> go_to_url ((fst (Browser_init example_env False example_fs))\<lparr>url_bar := ''ftp://a.com''\<rparr>)
       = ''https://ftp://a.com''"
  by (simp add: go_to_url_def py_strip_def py_isspace_def startswith_def Let_def)

section \<open>Loading the bookmarks\<close>



section \<open>Adding a bookmark\<close>



section \<open>Saving and loading again\<close>



section \<open>Incognito windows\<close>




section \<open>Bookmarks and the incognito flag\<close>



end
